theory Spec2Isabelle
  imports Complex_Main "HOL-Library.Sublist"
begin

section \<open>Rendering of values into text\<close>

text \<open>
  The generator (\<^verbatim>\<open>script_templates.py\<close>) interpolates Python integers into the script
  with f-strings, and the scripts concatenate JavaScript numbers into the lines they print.
  Both render an integer in decimal, with a leading minus sign when it is negative.
  Numbers are modelled as mathematical integers: the rendering and the arithmetic of the
  scripts agree with JavaScript's as long as the values stay inside its exact integer range
  (below \<open>2 ^ 53\<close> in magnitude).
\<close>

fun show_nat :: "nat \<Rightarrow> string" where
  "show_nat n =
     (if n < 10 then [''0123456789'' ! n]
      else show_nat (n div 10) @ [''0123456789'' ! (n mod 10)])"

declare show_nat.simps [simp del]

definition show_int :: "int \<Rightarrow> string" where
  "show_int i = (if i < 0 then CHR ''-'' # show_nat (nat (- i)) else show_nat (nat i))"

text \<open>Python's \<^verbatim>\<open>str(filled).lower()\<close>, and JavaScript's rendering of a boolean.\<close>

definition show_bool :: "bool \<Rightarrow> string" where
  "show_bool b = (if b then ''true'' else ''false'')"

section \<open>The scripting host\<close>

text \<open>
  The scripts run inside the external application, which is not part of the repository.
  What follows is the part of its scripting interface that the scripts use: the global
  \<^verbatim>\<open>app\<close> with its active sprite, active image, pixel-colour functions and commands,
  and the console. A value of a JavaScript variable that is a number or a string is a
  \<open>jsval\<close>.
\<close>

datatype jsval = JNum int | JStr string | JUndefined

fun js_to_string :: "jsval \<Rightarrow> string" where
  "js_to_string (JNum n) = show_int n"
| "js_to_string (JStr s) = s"
| "js_to_string JUndefined = ''undefined''"

text \<open>
  \<^verbatim>\<open>app.pixelColor\<close>: the colour constructor and the channel extractors. The encoding of a
  colour is the host's own, so the type of colours is a parameter.
\<close>

record 'c pixel_color =
  rgba :: "int \<Rightarrow> int \<Rightarrow> int \<Rightarrow> int \<Rightarrow> 'c"
  rgbaR :: "'c \<Rightarrow> int"
  rgbaG :: "'c \<Rightarrow> int"
  rgbaB :: "'c \<Rightarrow> int"

text \<open>
  \<^verbatim>\<open>app.activeImage\<close>: a pixel buffer with a width and a height. Every script compares a
  coordinate with \<^verbatim>\<open>img.width\<close> and \<^verbatim>\<open>img.height\<close> before it reads or writes the pixel
  there, so \<open>getPixel\<close> and \<open>putPixel\<close> are only ever applied inside the buffer.
\<close>

record 'c image =
  img_width :: int
  img_height :: int
  pixels :: "int \<times> int \<Rightarrow> 'c"

definition getPixel :: "'c image \<Rightarrow> int \<Rightarrow> int \<Rightarrow> 'c" where
  "getPixel img x y = pixels img (x, y)"

definition putPixel :: "'c image \<Rightarrow> int \<Rightarrow> int \<Rightarrow> 'c \<Rightarrow> 'c image" where
  "putPixel img x y c = img\<lparr>pixels := (pixels img)((x, y) := c)\<rparr>"

definition in_bounds :: "'c image \<Rightarrow> int \<times> int \<Rightarrow> bool" where
  "in_bounds img p = (fst p \<ge> 0 \<and> fst p < img_width img \<and> snd p \<ge> 0 \<and> snd p < img_height img)"

record layer =
  layer_name :: string
  isVisible :: bool
  isEditable :: bool

record sprite =
  spr_width :: int
  spr_height :: int
  colorMode :: jsval
  layers :: "layer list"

definition layerCount :: "sprite \<Rightarrow> int" where
  "layerCount s = int (length (layers s))"

text \<open>\<^verbatim>\<open>sprite.layer(i)\<close>: the layer at an index, or nothing when there is none.\<close>

definition sprite_layer :: "sprite \<Rightarrow> int \<Rightarrow> layer option" where
  "sprite_layer s i =
     (if 0 \<le> i \<and> i < layerCount s then Some (layers s ! nat i) else None)"

record 'c app =
  activeSprite :: "sprite option"
  activeImage :: "'c image option"
  activeLayerNumber :: int
  activeFrameNumber :: int
  pixelColor :: "'c pixel_color"
  parameters :: "(string \<times> jsval) list"
  ColorMode :: "string \<Rightarrow> jsval"

text \<open>
  The result of evaluating a script: the state of the host afterwards, and the lines the
  script printed with \<^verbatim>\<open>console.log\<close>, in order.
\<close>

type_synonym 'c outcome = "'c app \<times> string list"

section \<open>The scripts\<close>

subsection \<open>\<^verbatim>\<open>put_pixel\<close>\<close>

definition put_pixel_run ::
  "int \<Rightarrow> int \<Rightarrow> int \<Rightarrow> int \<Rightarrow> int \<Rightarrow> int \<Rightarrow> 'c app \<Rightarrow> 'c outcome" where
  "put_pixel_run x y r g b a app =
     (case activeSprite app of
        None \<Rightarrow> (app, [''No active sprite''])
      | Some sprite \<Rightarrow>
          (case activeImage app of
             None \<Rightarrow> (app, [''No active image''])
           | Some img \<Rightarrow>
               if x \<ge> 0 \<and> x < img_width img \<and> y \<ge> 0 \<and> y < img_height img then
                 let col = pixelColor app;
                     pixelColor = rgba col r g b a
                 in (app\<lparr>activeImage := Some (putPixel img x y pixelColor)\<rparr>,
                     [''Set pixel at ('' @ show_int x @ '','' @ show_int y @ '') to rgba(''
                        @ show_int r @ '','' @ show_int g @ '','' @ show_int b @ '',''
                        @ show_int a @ '')''])
               else
                 (app, [''Pixel coordinates ('' @ show_int x @ '','' @ show_int y
                          @ '') are out of bounds''])))"

subsection \<open>\<^verbatim>\<open>flood_fill\<close>\<close>

text \<open>
  The \<^verbatim>\<open>while (stack.length > 0)\<close> loop of the script. The JavaScript array is used as a
  stack that grows at its end; here the top of the stack is the head of the list, so the
  four pushes, made in the order \<open>(x + 1, y)\<close>, \<open>(x - 1, y)\<close>, \<open>(x, y + 1)\<close>,
  \<open>(x, y - 1)\<close>, leave \<open>(x, y - 1)\<close> on top. The loop need not end when the two colours
  are equal, so a run that never ends is the value \<open>None\<close>.
\<close>

partial_function (option) flood_loop ::
  "'c \<Rightarrow> 'c \<Rightarrow> 'c image \<Rightarrow> (int \<times> int) list \<Rightarrow> int \<Rightarrow> ('c image \<times> int) option" where
  "flood_loop targetColor fillColor img stack fillCount =
     (case stack of
        [] \<Rightarrow> Some (img, fillCount)
      | p # rest \<Rightarrow>
          (let x = fst p; y = snd p in
           if x < 0 \<or> x \<ge> img_width img \<or> y < 0 \<or> y \<ge> img_height img then
             flood_loop targetColor fillColor img rest fillCount
           else if getPixel img x y \<noteq> targetColor then
             flood_loop targetColor fillColor img rest fillCount
           else
             flood_loop targetColor fillColor (putPixel img x y fillColor)
               ((x, y - 1) # (x, y + 1) # (x - 1, y) # (x + 1, y) # rest) (fillCount + 1)))"

definition flood_fill_run ::
  "int \<Rightarrow> int \<Rightarrow> int \<Rightarrow> int \<Rightarrow> int \<Rightarrow> int \<Rightarrow> 'c app \<Rightarrow> 'c outcome option" where
  "flood_fill_run x y r g b a app =
     (case activeSprite app of
        None \<Rightarrow> Some (app, [''No active sprite''])
      | Some sprite \<Rightarrow>
          (case activeImage app of
             None \<Rightarrow> Some (app, [''No active image''])
           | Some img \<Rightarrow>
               let startX = x; startY = y in
               if startX \<ge> 0 \<and> startX < img_width img \<and> startY \<ge> 0 \<and> startY < img_height img then
                 let col = pixelColor app;
                     fillColor = rgba col r g b a;
                     targetColor = getPixel img startX startY
                 in if targetColor = fillColor then
                      Some (app, [''Target color is the same as fill color, no action needed''])
                    else
                      (case flood_loop targetColor fillColor img [(startX, startY)] 0 of
                         None \<Rightarrow> None
                       | Some (img', fillCount) \<Rightarrow>
                           Some (app\<lparr>activeImage := Some img'\<rparr>,
                                 [''Flood fill completed at ('' @ show_int startX @ '',''
                                    @ show_int startY @ ''), filled '' @ show_int fillCount
                                    @ '' pixels'']))
               else
                 Some (app, [''Start coordinates ('' @ show_int startX @ '','' @ show_int startY
                               @ '') are out of bounds''])))"

subsection \<open>The region a flood fill is meant to cover\<close>

text \<open>
  The four axis neighbours of a pixel, and the 4-connected region of a colour around a
  seed: the pixels of the surface that a path of axis steps through pixels of that colour
  joins to the seed. The script is compared with these; they are not taken from it.
\<close>

definition neighbours :: "int \<times> int \<Rightarrow> (int \<times> int) set" where
  "neighbours p = {(fst p + 1, snd p), (fst p - 1, snd p), (fst p, snd p + 1), (fst p, snd p - 1)}"

inductive_set region :: "'c image \<Rightarrow> 'c \<Rightarrow> int \<times> int \<Rightarrow> (int \<times> int) set"
  for img :: "'c image" and target :: 'c and seed :: "int \<times> int" where
  seed: "in_bounds img seed \<Longrightarrow> pixels img seed = target \<Longrightarrow> seed \<in> region img target seed"
| step: "p \<in> region img target seed \<Longrightarrow> q \<in> neighbours p \<Longrightarrow> in_bounds img q \<Longrightarrow>
         pixels img q = target \<Longrightarrow> q \<in> region img target seed"

text \<open>The surface with a set of pixels overwritten by one colour.\<close>

definition paint :: "'c image \<Rightarrow> (int \<times> int) set \<Rightarrow> 'c \<Rightarrow> 'c image" where
  "paint img F c = img\<lparr>pixels := (\<lambda>p. if p \<in> F then c else pixels img p)\<rparr>"

section \<open>A concrete host for examples\<close>

text \<open>
  A colour packed into one integer, eight bits a channel, and a sprite of one layer with a
  surface of three pixels in a row, the last of another colour than the first two.
\<close>

definition packed_color :: "int pixel_color" where
  "packed_color =
     \<lparr>rgba = (\<lambda>r g b a. r + 256 * g + 65536 * b + 16777216 * a),
      rgbaR = (\<lambda>c. c mod 256),
      rgbaG = (\<lambda>c. c div 256 mod 256),
      rgbaB = (\<lambda>c. c div 65536 mod 256)\<rparr>"

definition demo_sprite :: sprite where
  "demo_sprite =
     \<lparr>spr_width = 3, spr_height = 1, colorMode = JNum 0,
      layers = [\<lparr>layer_name = ''Layer 1'', isVisible = True, isEditable = True\<rparr>]\<rparr>"

definition demo_image :: "int image" where
  "demo_image = \<lparr>img_width = 3, img_height = 1, pixels = (\<lambda>p. if p = (2, 0) then 7 else 0)\<rparr>"

definition demo_app :: "int app" where
  "demo_app =
     \<lparr>activeSprite = Some demo_sprite, activeImage = Some demo_image,
      activeLayerNumber = 0, activeFrameNumber = 0, pixelColor = packed_color,
      parameters = [], ColorMode = (\<lambda>n. if n = ''RGB'' then JNum 0 else JUndefined)\<rparr>"

subsection \<open>Counting loops\<close>

text \<open>
  \<^verbatim>\<open>for (let i = lo; i < hi; i++) body\<close>, for a body that does not assign to \<open>i\<close>: the
  state after the loop. A loop whose test is \<^verbatim>\<open>i <= hi\<close> is \<open>for_loop lo (hi + 1)\<close>.
\<close>

function for_loop :: "int \<Rightarrow> int \<Rightarrow> (int \<Rightarrow> 's \<Rightarrow> 's) \<Rightarrow> 's \<Rightarrow> 's" where
  "for_loop i hi body s = (if i < hi then for_loop (i + 1) hi body (body i s) else s)"
  by pat_completeness auto
termination
  by (relation "measure (\<lambda>(i, hi, body, s). nat (hi - i))") auto

declare for_loop.simps [simp del]

subsection \<open>\<^verbatim>\<open>replace_color\<close>\<close>

text \<open>The body of the inner loop: one pixel is read, compared channel by channel, and replaced.\<close>

definition replace_pixel ::
  "'c pixel_color \<Rightarrow> int \<Rightarrow> int \<Rightarrow> int \<Rightarrow> 'c \<Rightarrow> int \<Rightarrow> int \<Rightarrow> 'c image \<times> int \<Rightarrow> 'c image \<times> int" where
  "replace_pixel col old_r old_g old_b newColor x y st =
     (let img = fst st; replacedCount = snd st;
          pixelColor = getPixel img x y
      in if rgbaR col pixelColor = old_r \<and> rgbaG col pixelColor = old_g
            \<and> rgbaB col pixelColor = old_b
         then (putPixel img x y newColor, replacedCount + 1)
         else (img, replacedCount))"

definition replace_scan ::
  "'c pixel_color \<Rightarrow> int \<Rightarrow> int \<Rightarrow> int \<Rightarrow> 'c \<Rightarrow> 'c image \<Rightarrow> 'c image \<times> int" where
  "replace_scan col old_r old_g old_b newColor img =
     for_loop 0 (img_height img)
       (\<lambda>y. for_loop 0 (img_width img) (\<lambda>x. replace_pixel col old_r old_g old_b newColor x y))
       (img, 0)"

definition replace_color_run ::
  "int \<Rightarrow> int \<Rightarrow> int \<Rightarrow> int \<Rightarrow> int \<Rightarrow> int \<Rightarrow> int \<Rightarrow> 'c app \<Rightarrow> 'c outcome" where
  "replace_color_run old_r old_g old_b new_r new_g new_b new_a app =
     (case activeSprite app of
        None \<Rightarrow> (app, [''No active sprite''])
      | Some sprite \<Rightarrow>
          (case activeImage app of
             None \<Rightarrow> (app, [''No active image''])
           | Some img \<Rightarrow>
               let col = pixelColor app;
                   oldColor = rgba col old_r old_g old_b 255;
                   newColor = rgba col new_r new_g new_b new_a;
                   scanned = replace_scan col old_r old_g old_b newColor img;
                   replacedCount = snd scanned
               in (app\<lparr>activeImage := Some (fst scanned)\<rparr>,
                   [''Replaced '' @ show_int replacedCount @ '' pixels from rgba(''
                      @ show_int old_r @ '','' @ show_int old_g @ '','' @ show_int old_b
                      @ '',*) to rgba('' @ show_int new_r @ '','' @ show_int new_g @ '',''
                      @ show_int new_b @ '','' @ show_int new_a @ '')''])))"

text \<open>
  The coordinates of a surface in row-major order, and the test the script applies to a
  pixel, for the statement of what the scan does.
\<close>

definition row_major :: "'c image \<Rightarrow> (int \<times> int) list" where
  "row_major img = concat (map (\<lambda>y. map (\<lambda>x. (x, y)) [0..img_width img - 1]) [0..img_height img - 1])"

definition rgb_matches :: "'c pixel_color \<Rightarrow> int \<Rightarrow> int \<Rightarrow> int \<Rightarrow> 'c \<Rightarrow> bool" where
  "rgb_matches col old_r old_g old_b c =
     (rgbaR col c = old_r \<and> rgbaG col c = old_g \<and> rgbaB col c = old_b)"

section \<open>Verification\<close>

subsection \<open>Helper facts\<close>

lemma show_int_digit [simp]:
  "show_int 0 = ''0''" "show_int 1 = ''1''" "show_int 2 = ''2''" "show_int 3 = ''3''"
  by (simp_all add: show_int_def show_nat.simps)

lemma in_bounds_fold:
  "(0 \<le> x \<and> x < img_width img \<and> 0 \<le> y \<and> y < img_height img) = in_bounds img (x, y)"
  by (simp add: in_bounds_def)

subsection \<open>Flood fill\<close>

lemma finite_in_bounds: "finite {p. in_bounds img p}"
proof -
  have "{p. in_bounds img p} \<subseteq> {0..<img_width img} \<times> {0..<img_height img}"
    by (auto simp: in_bounds_def)
  then show ?thesis by (rule finite_subset) simp
qed

lemma region_in_bounds: "p \<in> region img target seed \<Longrightarrow> in_bounds img p"
  by (induction rule: region.induct) auto

lemma region_target: "p \<in> region img target seed \<Longrightarrow> pixels img p = target"
  by (induction rule: region.induct) auto

lemma finite_region: "finite (region img target seed)"
  by (rule finite_subset[OF _ finite_in_bounds[of img]]) (auto dest: region_in_bounds)

lemma putPixel_paint: "putPixel (paint img F c) x y c = paint img (insert (x, y) F) c"
  by (simp add: putPixel_def paint_def fun_eq_iff)

lemma paint_simps [simp]:
  "img_width (paint img F c) = img_width img"
  "img_height (paint img F c) = img_height img"
  "pixels (paint img F c) p = (if p \<in> F then c else pixels img p)"
  by (simp_all add: paint_def)

lemma region_closed:
  assumes "seed \<in> F" and "\<forall>p\<in>F. \<forall>q\<in>neighbours p. q \<in> region img target seed \<longrightarrow> q \<in> F"
  shows "p \<in> region img target seed \<Longrightarrow> p \<in> F"
proof (induction rule: region.induct)
  case seed
  show ?case by (rule assms(1))
next
  case (step p q)
  have "q \<in> region img target seed"
    by (rule region.step[OF step.hyps(1) step.hyps(2) step.hyps(3) step.hyps(4)])
  with assms(2) step.IH step.hyps(2) show ?case by blast
qed



lemma flood_loop_Nil: "flood_loop t f img [] c = Some (img, c)"
  by (rule trans[OF flood_loop.simps]) simp

lemma flood_loop_out:
  "\<not> in_bounds img p \<Longrightarrow> flood_loop t f img (p # rest) c = flood_loop t f img rest c"
  by (rule trans[OF flood_loop.simps]) (auto simp: in_bounds_def Let_def)

lemma flood_loop_other:
  "in_bounds img p \<Longrightarrow> pixels img p \<noteq> t \<Longrightarrow>
   flood_loop t f img (p # rest) c = flood_loop t f img rest c"
  by (rule trans[OF flood_loop.simps]) (auto simp: in_bounds_def Let_def getPixel_def)

lemma flood_loop_fill:
  "in_bounds img p \<Longrightarrow> pixels img p = t \<Longrightarrow>
   flood_loop t f img (p # rest) c =
   flood_loop t f (putPixel img (fst p) (snd p) f)
     ((fst p, snd p - 1) # (fst p, snd p + 1) # (fst p - 1, snd p) # (fst p + 1, snd p) # rest) (c + 1)"
  by (rule trans[OF flood_loop.simps]) (auto simp: in_bounds_def Let_def getPixel_def)


lemma flood_loop_region:
  assumes tf: "target \<noteq> fill"
  shows "F \<subseteq> region img0 target seed \<Longrightarrow>
         (\<forall>p\<in>F. \<forall>q\<in>neighbours p. q \<in> region img0 target seed \<longrightarrow> q \<in> F \<or> q \<in> set stack) \<Longrightarrow>
         (seed \<in> region img0 target seed \<longrightarrow> seed \<in> F \<or> seed \<in> set stack) \<Longrightarrow>
         (\<forall>q\<in>set stack. in_bounds img0 q \<and> pixels img0 q = target \<longrightarrow> q \<in> region img0 target seed) \<Longrightarrow>
         flood_loop target fill (paint img0 F fill) stack (int (card F))
           = Some (paint img0 (region img0 target seed) fill, int (card (region img0 target seed)))"
proof (induction "card (region img0 target seed - F)" arbitrary: F stack rule: less_induct)
  case less
  let ?R = "region img0 target seed"
  from less.prems show ?case
  proof (induction stack)
    case Nil
    have "?R \<subseteq> F"
    proof
      fix p assume p: "p \<in> ?R"
      then have "seed \<in> ?R" by (induction rule: region.induct) (auto intro: region.seed)
      with Nil have "seed \<in> F" by simp
      moreover from Nil have "\<forall>p\<in>F. \<forall>q\<in>neighbours p. q \<in> ?R \<longrightarrow> q \<in> F" by simp
      ultimately show "p \<in> F" using p by (rule region_closed)
    qed
    with Nil have "F = ?R" by blast
    then show ?case by (simp add: flood_loop_Nil)
  next
    case (Cons p rest)
    obtain x y where p: "p = (x, y)" by (cases p)
    show ?case
    proof (cases "in_bounds img0 p")
      case False
      then have notR: "p \<notin> ?R" by (auto dest: region_in_bounds)
      have "flood_loop target fill (paint img0 F fill) rest (int (card F))
           = Some (paint img0 ?R fill, int (card ?R))"
        using Cons.prems notR by (intro Cons.IH) auto
      moreover have "\<not> in_bounds (paint img0 F fill) p" using False by (simp add: in_bounds_def)
      ultimately show ?thesis by (simp add: flood_loop_out)
    next
      case ib: True
      show ?thesis
      proof (cases "pixels (paint img0 F fill) p = target")
        case False
        have pF: "p \<in> F \<or> p \<notin> ?R"
        proof (cases "p \<in> F")
          case nF: False
          then have "pixels img0 p \<noteq> target" using False by simp
          then show ?thesis using region_target[of p img0 target seed] by blast
        qed simp
        have "flood_loop target fill (paint img0 F fill) rest (int (card F))
           = Some (paint img0 ?R fill, int (card ?R))"
          using Cons.prems pF by (intro Cons.IH) auto
        moreover have "in_bounds (paint img0 F fill) p" using ib by (simp add: in_bounds_def)
        ultimately show ?thesis using False by (simp add: flood_loop_other)
      next
        case True
        then have pnF: "p \<notin> F" and p0: "pixels img0 p = target"
          using tf by (auto split: if_splits)
        with ib Cons.prems have pR: "p \<in> ?R" by simp
        let ?F = "insert p F"
        let ?stack = "(x, y - 1) # (x, y + 1) # (x - 1, y) # (x + 1, y) # rest"
        have fin: "finite F" by (rule finite_subset[OF Cons.prems(1) finite_region])
        have "?R - ?F \<subset> ?R - F" using pR pnF by blast
        then have lt: "card (?R - ?F) < card (?R - F)"
          by (intro psubset_card_mono finite_Diff finite_region)
        have nb: "neighbours p \<subseteq> set ?stack" by (auto simp: neighbours_def p)
        have "flood_loop target fill (paint img0 ?F fill) ?stack (int (card ?F))
           = Some (paint img0 ?R fill, int (card ?R))"
        proof (rule less.hyps[OF lt])
          show "?F \<subseteq> ?R" using Cons.prems(1) pR by simp
          show "\<forall>p'\<in>?F. \<forall>q\<in>neighbours p'. q \<in> ?R \<longrightarrow> q \<in> ?F \<or> q \<in> set ?stack"
          proof (intro ballI impI)
            fix p' q assume a: "p' \<in> ?F" "q \<in> neighbours p'" "q \<in> ?R"
            show "q \<in> ?F \<or> q \<in> set ?stack"
            proof (cases "p' = p")
              case True then show ?thesis using a(2) nb by blast
            next
              case False
              then have "p' \<in> F" using a(1) by simp
              then have "q \<in> F \<or> q \<in> set (p # rest)" using Cons.prems(2) a(2,3) by blast
              then show ?thesis by auto
            qed
          qed
          show "seed \<in> ?R \<longrightarrow> seed \<in> ?F \<or> seed \<in> set ?stack"
            using Cons.prems(3) by auto
          show "\<forall>q\<in>set ?stack. in_bounds img0 q \<and> pixels img0 q = target \<longrightarrow> q \<in> ?R"
          proof (intro ballI impI)
            fix q assume q: "q \<in> set ?stack" and ok: "in_bounds img0 q \<and> pixels img0 q = target"
            show "q \<in> ?R"
            proof (cases "q \<in> set rest")
              case True
              then show ?thesis using Cons.prems(4) ok by simp
            next
              case False
              then have "q \<in> neighbours p" using q by (auto simp: neighbours_def p)
              then show ?thesis using ok by (intro region.step[OF pR]) simp_all
            qed
          qed
        qed
        moreover have "int (card ?F) = int (card F) + 1" using fin pnF by simp
        moreover have "in_bounds (paint img0 F fill) p" using ib by (simp add: in_bounds_def)
        ultimately show ?thesis using True
          by (simp add: flood_loop_fill p putPixel_paint)
      qed
    qed
  qed
qed

lemma paint_empty: "paint img {} c = img"
  by (simp add: paint_def)

lemma flood_loop_seed:
  assumes "in_bounds img seed" and "target \<noteq> fill" and "pixels img seed = target"
  shows "flood_loop target fill img [seed] 0
         = Some (paint img (region img target seed) fill, int (card (region img target seed)))"
  using flood_loop_region[OF assms(2), of "{}" img seed "[seed]"] assms(1,3)
  by (simp add: paint_empty region.seed)

lemma region_demo: "region demo_image 0 (0, 0) = {(0, 0), (1, 0)}"
proof (intro equalityI subsetI)
  fix p assume "p \<in> region demo_image 0 (0, 0)"
  then show "p \<in> {(0, 0), (1, 0)}"
    by (induction rule: region.induct)
       (auto simp: neighbours_def in_bounds_def demo_image_def split: if_splits)
next
  fix p :: "int \<times> int" assume p: "p \<in> {(0, 0), (1, 0)}"
  have s: "(0, 0) \<in> region demo_image 0 (0, 0)"
    by (rule region.seed) (simp_all add: in_bounds_def demo_image_def)
  have "(1, 0) \<in> region demo_image 0 (0, 0)"
    by (rule region.step[OF s]) (simp_all add: neighbours_def in_bounds_def demo_image_def)
  with s p show "p \<in> region demo_image 0 (0, 0)" by auto
qed

lemma flood_fill_run_cases:
  "flood_fill_run x y r g b a app =
     (case activeSprite app of
        None \<Rightarrow> Some (app, [''No active sprite''])
      | Some sprite \<Rightarrow>
          (case activeImage app of
             None \<Rightarrow> Some (app, [''No active image''])
           | Some img \<Rightarrow>
               let fillColor = rgba (pixelColor app) r g b a;
                   targetColor = getPixel img x y;
                   filled = region img targetColor (x, y)
               in if in_bounds img (x, y) then
                    if targetColor = fillColor then
                      Some (app, [''Target color is the same as fill color, no action needed''])
                    else
                      Some (app\<lparr>activeImage := Some (paint img filled fillColor)\<rparr>,
                            [''Flood fill completed at ('' @ show_int x @ '','' @ show_int y
                               @ ''), filled '' @ show_int (int (card filled)) @ '' pixels''])
                  else
                    Some (app, [''Start coordinates ('' @ show_int x @ '','' @ show_int y
                                  @ '') are out of bounds''])))"
proof (cases "activeSprite app")
  case None
  then show ?thesis by (simp add: flood_fill_run_def)
next
  case (Some sprite)
  show ?thesis
  proof (cases "activeImage app")
    case None
    then show ?thesis using Some by (simp add: flood_fill_run_def)
  next
    case img: (Some img)
    show ?thesis
    proof (cases "in_bounds img (x, y)")
      case False
      then show ?thesis using Some img
        by (simp add: flood_fill_run_def in_bounds_fold Let_def)
    next
      case ib: True
      show ?thesis
      proof (cases "getPixel img x y = rgba (pixelColor app) r g b a")
        case True
        then show ?thesis using Some img ib
          by (simp add: flood_fill_run_def in_bounds_fold Let_def)
      next
        case False
        have "flood_loop (getPixel img x y) (rgba (pixelColor app) r g b a) img [(x, y)] 0
              = Some (paint img (region img (getPixel img x y) (x, y)) (rgba (pixelColor app) r g b a),
                      int (card (region img (getPixel img x y) (x, y))))"
          by (rule flood_loop_seed[OF ib False]) (simp add: getPixel_def)
        then show ?thesis using Some img ib False
          by (simp add: flood_fill_run_def in_bounds_fold Let_def)
      qed
    qed
  qed
qed

text \<open>
  Claim C2. With an active sprite and an active image, the flood-fill script checks the seed
  against the bounds of the surface first, and reports a seed outside them without writing.
  When the colour at the seed equals the fill colour it writes nothing and prints the
  no-action line. Otherwise the stack loop ends, the surface afterwards is the surface
  before with exactly the 4-connected region of the seed's colour around the seed
  overwritten by the fill colour, and the count the script prints is the number of pixels
  of that region.
\<close>

theorem flood_fill_fills_region:
  "flood_fill_run x y r g b a app =
     (case activeSprite app of
        None \<Rightarrow> Some (app, [''No active sprite''])
      | Some sprite \<Rightarrow>
          (case activeImage app of
             None \<Rightarrow> Some (app, [''No active image''])
           | Some img \<Rightarrow>
               let fillColor = rgba (pixelColor app) r g b a;
                   targetColor = getPixel img x y;
                   filled = region img targetColor (x, y)
               in if in_bounds img (x, y) then
                    if targetColor = fillColor then
                      Some (app, [''Target color is the same as fill color, no action needed''])
                    else
                      Some (app\<lparr>activeImage := Some (paint img filled fillColor)\<rparr>,
                            [''Flood fill completed at ('' @ show_int x @ '','' @ show_int y
                               @ ''), filled '' @ show_int (int (card filled)) @ '' pixels''])
                  else
                    Some (app, [''Start coordinates ('' @ show_int x @ '','' @ show_int y
                                  @ '') are out of bounds''])))"
  by (rule flood_fill_run_cases)

theorem flood_fill_fills_region_witness:
  "flood_fill_run 0 0 1 0 0 0 demo_app =
     Some (demo_app\<lparr>activeImage := Some (paint demo_image {(0, 0), (1, 0)} 1)\<rparr>,
           [''Flood fill completed at (0,0), filled 2 pixels''])"
proof -
  have 1: "activeSprite demo_app = Some demo_sprite" "activeImage demo_app = Some demo_image"
    "rgba (pixelColor demo_app) 1 0 0 0 = 1"
    by (simp_all add: demo_app_def packed_color_def)
  have 2: "getPixel demo_image 0 0 = 0" "in_bounds demo_image (0, 0)"
    by (simp_all add: getPixel_def in_bounds_def demo_image_def)
  show ?thesis
    using flood_fill_fills_region[of 0 0 1 0 0 0 demo_app]
    by (simp add: 1 2 Let_def region_demo)
qed

subsection \<open>Running a script twice\<close>

lemma in_bounds_paint [simp]: "in_bounds (paint img F c) p = in_bounds img p"
  by (simp add: in_bounds_def)

lemma flood_fill_run_twice:
  "\<exists>app1 out1 out2. flood_fill_run x y r g b a app = Some (app1, out1)
      \<and> flood_fill_run x y r g b a app1 = Some (app1, out2)"
proof (cases "activeSprite app")
  case None
  then show ?thesis by (simp add: flood_fill_run_cases)
next
  case (Some sprite)
  show ?thesis
  proof (cases "activeImage app")
    case None
    then show ?thesis using Some by (simp add: flood_fill_run_cases)
  next
    case img: (Some img)
    let ?fill = "rgba (pixelColor app) r g b a"
    let ?target = "getPixel img x y"
    let ?R = "region img ?target (x, y)"
    show ?thesis
    proof (cases "in_bounds img (x, y) \<and> ?target \<noteq> ?fill")
      case False
      then have "flood_fill_run x y r g b a app = Some (app, snd (the (flood_fill_run x y r g b a app)))"
        using Some img by (auto simp: flood_fill_run_cases Let_def)
      then show ?thesis by blast
    next
      case True
      let ?app1 = "app\<lparr>activeImage := Some (paint img ?R ?fill)\<rparr>"
      have seed: "(x, y) \<in> ?R" using True by (intro region.seed) (simp_all add: getPixel_def)
      have 1: "flood_fill_run x y r g b a app = Some (?app1,
                 [''Flood fill completed at ('' @ show_int x @ '','' @ show_int y
                    @ ''), filled '' @ show_int (int (card ?R)) @ '' pixels''])"
        using Some img True by (simp add: flood_fill_run_cases Let_def)
      have 2: "flood_fill_run x y r g b a ?app1 =
                 Some (?app1, [''Target color is the same as fill color, no action needed''])"
        using Some True seed by (simp add: flood_fill_run_cases Let_def getPixel_def)
      show ?thesis using 1 2 by blast
    qed
  qed
qed

lemma put_pixel_run_twice:
  "fst (put_pixel_run x y r g b a (fst (put_pixel_run x y r g b a app)))
     = fst (put_pixel_run x y r g b a app)"
  by (simp add: put_pixel_run_def putPixel_def Let_def split: option.splits)

text \<open>
  Claim C9. Flood fill and put-pixel are idempotent on the surface: for every state of the
  host and every parameters, the flood-fill script returns, and run again on the state it
  left it returns that same state; the put-pixel script run twice leaves the state that one
  run leaves.
\<close>

theorem flood_fill_put_pixel_idempotent:
  "(\<exists>app1 out1 out2. flood_fill_run x y r g b a app = Some (app1, out1)
      \<and> flood_fill_run x y r g b a app1 = Some (app1, out2))
   \<and> fst (put_pixel_run x y r g b a (fst (put_pixel_run x y r g b a app)))
       = fst (put_pixel_run x y r g b a app)"
  by (rule conjI[OF flood_fill_run_twice put_pixel_run_twice])

theorem flood_fill_put_pixel_idempotent_witness:
  "(\<exists>app1 out1 out2. flood_fill_run 0 0 1 0 0 0 demo_app = Some (app1, out1)
      \<and> flood_fill_run 0 0 1 0 0 0 app1 = Some (app1, out2))
   \<and> fst (put_pixel_run 0 0 1 0 0 0 (fst (put_pixel_run 0 0 1 0 0 0 demo_app)))
       = fst (put_pixel_run 0 0 1 0 0 0 demo_app)"
  by (rule flood_fill_put_pixel_idempotent)

end
